theory Spec2Isabelle
  imports Main "HOL-Library.AList" "HOL-Library.List_Lexorder"
begin

section \<open>Python values\<close>

text \<open>
  A Python \<open>bytes\<close> value is a list of 8-bit characters, so that the literal \<open>b'tree'\<close>
  is \<open>''tree''\<close>. A Python \<open>str\<close> is a list of Unicode code points; the literal
  \<open>"tree"\<close> is \<open>ascii ''tree''\<close>. Lists of code points are compared
  lexicographically, a proper prefix first, as Python compares strings.
  Python integers are \<open>int\<close> where a sign can occur and \<open>nat\<close> where it cannot.
  Limits of the interpreter (memory, recursion depth, the bound on the number of digits
  in a conversion between \<open>int\<close> and \<open>str\<close>) are not part of the model.
\<close>

type_synonym bytes = "char list"
type_synonym str = "nat list"

definition ascii :: "string \<Rightarrow> str" where
  "ascii s = map of_char s"

datatype error =
    NoSuchReference str
  | AmbiguousReference str "str list"
  | MalformedObject str
  | UnknownType str str
  | CannotRemoveOutside "str list"
  | CannotRemoveMissing "str list"
  | NotInWorktree "str list"
  | NotAFile "str list"
  | AssertionError
  | ValueError
  | IndexError
  | KeyError
  | TypeError
  | AttributeError
  | OverflowError
  | UnicodeDecodeError
  | UnicodeEncodeError
  | ZlibError

abbreviation SP :: char where "SP \<equiv> CHR '' ''"
abbreviation NL :: char where "NL \<equiv> CHR 0x0A"
abbreviation NUL :: char where "NUL \<equiv> CHR 0x00"

subsection \<open>Searching, slicing, indexing\<close>

fun index_from :: "'a \<Rightarrow> 'a list \<Rightarrow> nat \<Rightarrow> int" where
  "index_from c [] i = -1"
| "index_from c (x # xs) i = (if x = c then int i else index_from c xs (Suc i))"

text \<open>\<open>xs.find(c, start)\<close> for a needle of one element: the first position of \<open>c\<close> at or
  after \<open>start\<close>, or \<open>-1\<close>. A negative \<open>start\<close> counts from the end.\<close>

definition py_find :: "'a list \<Rightarrow> 'a \<Rightarrow> int \<Rightarrow> int" where
  "py_find xs c start =
     (let n = int (length xs);
          s = (if start < 0 then max 0 (start + n) else start)
      in if n < s then -1 else index_from c (drop (nat s) xs) (nat s))"

definition py_clamp :: "nat \<Rightarrow> int \<Rightarrow> nat" where
  "py_clamp n i = (if i < 0 then nat (max 0 (i + int n)) else min n (nat i))"

text \<open>\<open>xs[i:j]\<close> and \<open>xs[i:]\<close>.\<close>

definition py_slice :: "'a list \<Rightarrow> int \<Rightarrow> int \<Rightarrow> 'a list" where
  "py_slice xs i j = drop (py_clamp (length xs) i) (take (py_clamp (length xs) j) xs)"

definition py_slice_from :: "'a list \<Rightarrow> int \<Rightarrow> 'a list" where
  "py_slice_from xs i = drop (py_clamp (length xs) i) xs"

text \<open>\<open>xs[i]\<close>, which raises \<open>IndexError\<close> out of range.\<close>

definition py_get :: "'a list \<Rightarrow> int \<Rightarrow> error + 'a" where
  "py_get xs i =
     (if 0 \<le> i \<and> i < int (length xs) then Inr (xs ! nat i)
      else if i < 0 \<and> - int (length xs) \<le> i then Inr (xs ! nat (i + int (length xs)))
      else Inl IndexError)"

definition startswith :: "'a list \<Rightarrow> 'a list \<Rightarrow> bool" where
  "startswith xs p = (take (length p) xs = p)"

text \<open>\<open>xs.replace(old, new)\<close>: the occurrences of \<open>old\<close> are found from the left and
  do not overlap.\<close>

function py_replace :: "'a list \<Rightarrow> 'a list \<Rightarrow> 'a list \<Rightarrow> 'a list" where
  "py_replace [] old new = (if old = [] then new else [])"
| "py_replace (x # xs) old new =
     (if old = [] then new @ x # py_replace xs old new
      else if startswith (x # xs) old
           then new @ py_replace (drop (length old) (x # xs)) old new
           else x # py_replace xs old new)"
  by pat_completeness auto
termination
  by (relation "measure (\<lambda>(xs, old, new). length xs)") auto

subsection \<open>Numbers and their text\<close>

text \<open>The digits of \<open>n\<close> in base \<open>b\<close>, lower case, as \<open>str(n)\<close>, \<open>format(n, "x")\<close> and
  \<open>format(n, "o")\<close> give them.\<close>

definition digit_char :: "nat \<Rightarrow> nat" where
  "digit_char d = (if d < 10 then 48 + d else 87 + d)"

fun to_base :: "nat \<Rightarrow> nat \<Rightarrow> str" where
  "to_base b n =
     (if b < 2 \<or> n < b then [digit_char n]
      else to_base b (n div b) @ [digit_char (n mod b)])"

declare to_base.simps [simp del]

text \<open>Padding with zeros on the left to a minimal width: \<open>format(n, "040x")\<close>,
  \<open>f"{n:02o}"\<close>.\<close>

definition zero_pad :: "nat \<Rightarrow> str \<Rightarrow> str" where
  "zero_pad w s = replicate (w - length s) 48 @ s"

definition format_hex40 :: "nat \<Rightarrow> str" where
  "format_hex40 n = zero_pad 40 (to_base 16 n)"

definition format_oct :: "nat \<Rightarrow> nat \<Rightarrow> str" where
  "format_oct w n = zero_pad w (to_base 8 n)"

text \<open>\<open>str(n).encode()\<close>.\<close>

definition str_bytes :: "nat \<Rightarrow> bytes" where
  "str_bytes n = map char_of (to_base 10 n)"

definition is_space :: "nat \<Rightarrow> bool" where
  "is_space c = (c \<in> {9, 10, 11, 12, 13, 28, 29, 30, 31, 32, 133, 160, 5760, 8232, 8233,
                      8239, 8287, 12288} \<or> (8192 \<le> c \<and> c \<le> 8202))"

definition strip :: "str \<Rightarrow> str" where
  "strip s = rev (dropWhile is_space (rev (dropWhile is_space s)))"

definition digit_val :: "nat \<Rightarrow> nat option" where
  "digit_val c =
     (if 48 \<le> c \<and> c \<le> 57 then Some (c - 48)
      else if 97 \<le> c \<and> c \<le> 122 then Some (c - 87)
      else if 65 \<le> c \<and> c \<le> 90 then Some (c - 55)
      else None)"

text \<open>Digits with single underscores between them: \<open>None\<close> unless the text is a
  non-empty sequence of digits of the base in which an underscore stands only between
  two digits.\<close>

fun digits_value :: "nat \<Rightarrow> bool \<Rightarrow> nat \<Rightarrow> str \<Rightarrow> nat option" where
  "digits_value b after_digit acc [] = (if after_digit then Some acc else None)"
| "digits_value b after_digit acc (c # cs) =
     (if c = 95 then (if after_digit then digits_value b False acc cs else None)
      else case digit_val c of
             None \<Rightarrow> None
           | Some d \<Rightarrow> if d < b then digits_value b True (acc * b + d) cs else None)"

text \<open>\<open>int(s, b)\<close> for \<open>b\<close> 10 or 16, on the characters of ASCII: surrounding white
  space, a sign, for base 16 the prefix \<open>0x\<close>, then the digits. (CPython also takes the
  decimal digits of other scripts; they raise \<open>ValueError\<close> here.)\<close>

definition py_int :: "nat \<Rightarrow> str \<Rightarrow> error + int" where
  "py_int b s =
     (let t = strip s;
          neg = (t \<noteq> [] \<and> hd t = 45);
          u = (if t \<noteq> [] \<and> (hd t = 45 \<or> hd t = 43) then tl t else t);
          v = (if b = 16 \<and> (startswith u [48, 120] \<or> startswith u [48, 88])
               then (if startswith (drop 2 u) [95] then drop 3 u else drop 2 u)
               else u)
      in case digits_value b False 0 v of
           None \<Rightarrow> Inl ValueError
         | Some n \<Rightarrow> Inr (if neg then - int n else int n))"

text \<open>\<open>n.to_bytes(k, "big")\<close> and \<open>int.from_bytes(bs, "big")\<close>.\<close>

fun be_bytes :: "nat \<Rightarrow> nat \<Rightarrow> bytes" where
  "be_bytes 0 n = []"
| "be_bytes (Suc k) n = be_bytes k (n div 256) @ [char_of (n mod 256)]"

definition to_bytes :: "nat \<Rightarrow> nat \<Rightarrow> error + bytes" where
  "to_bytes k n = (if n < 256 ^ k then Inr (be_bytes k n) else Inl OverflowError)"

definition from_bytes :: "bytes \<Rightarrow> nat" where
  "from_bytes bs = foldl (\<lambda>a c. a * 256 + of_char c) 0 bs"

subsection \<open>Text encodings\<close>

definition decode_ascii :: "bytes \<Rightarrow> error + str" where
  "decode_ascii bs =
     (if \<forall>c \<in> set bs. (of_char c :: nat) < 128 then Inr (map of_char bs)
      else Inl UnicodeDecodeError)"

definition utf8_char :: "nat \<Rightarrow> error + bytes" where
  "utf8_char c =
     (if c < 0x80 then Inr [char_of c]
      else if c < 0x800 then Inr [char_of (0xC0 + c div 64), char_of (0x80 + c mod 64)]
      else if c < 0x10000 then
        (if 0xD800 \<le> c \<and> c < 0xE000 then Inl UnicodeEncodeError
         else Inr [char_of (0xE0 + c div 4096), char_of (0x80 + c div 64 mod 64),
                   char_of (0x80 + c mod 64)])
      else if c < 0x110000 then
        Inr [char_of (0xF0 + c div 262144), char_of (0x80 + c div 4096 mod 64),
             char_of (0x80 + c div 64 mod 64), char_of (0x80 + c mod 64)]
      else Inl UnicodeEncodeError)"

text \<open>\<open>s.encode("utf8")\<close>.\<close>

fun utf8_encode :: "str \<Rightarrow> error + bytes" where
  "utf8_encode [] = Inr []"
| "utf8_encode (c # cs) =
     (case utf8_char c of
        Inl e \<Rightarrow> Inl e
      | Inr bs \<Rightarrow> (case utf8_encode cs of Inl e \<Rightarrow> Inl e | Inr rest \<Rightarrow> Inr (bs @ rest)))"

definition is_cont :: "char \<Rightarrow> bool" where
  "is_cont c = (0x80 \<le> (of_char c :: nat) \<and> (of_char c :: nat) < 0xC0)"

definition cont :: "char \<Rightarrow> nat" where
  "cont c = of_char c - 0x80"

definition cons_char :: "nat \<Rightarrow> error + str \<Rightarrow> error + str" where
  "cons_char c r = (case r of Inl e \<Rightarrow> Inl e | Inr cs \<Rightarrow> Inr (c # cs))"

text \<open>\<open>bs.decode("utf8")\<close>: the strict decoder, which refuses a truncated or overlong
  sequence, a surrogate and a value beyond \<open>0x10FFFF\<close>.\<close>

fun utf8_decode :: "bytes \<Rightarrow> error + str" where
  "utf8_decode [] = Inr []"
| "utf8_decode (b # bs) =
     (let n = (of_char b :: nat) in
      if n < 0x80 then cons_char n (utf8_decode bs)
      else if n < 0xC0 then Inl UnicodeDecodeError
      else if n < 0xE0 then
        (case bs of
           b1 # r \<Rightarrow>
             (let v = (n - 0xC0) * 64 + cont b1 in
              if is_cont b1 \<and> 0x80 \<le> v then cons_char v (utf8_decode r)
              else Inl UnicodeDecodeError)
         | _ \<Rightarrow> Inl UnicodeDecodeError)
      else if n < 0xF0 then
        (case bs of
           b1 # b2 # r \<Rightarrow>
             (let v = (n - 0xE0) * 4096 + cont b1 * 64 + cont b2 in
              if is_cont b1 \<and> is_cont b2 \<and> 0x800 \<le> v \<and> \<not> (0xD800 \<le> v \<and> v < 0xE000)
              then cons_char v (utf8_decode r)
              else Inl UnicodeDecodeError)
         | _ \<Rightarrow> Inl UnicodeDecodeError)
      else if n < 0xF8 then
        (case bs of
           b1 # b2 # b3 # r \<Rightarrow>
             (let v = (n - 0xF0) * 262144 + cont b1 * 4096 + cont b2 * 64 + cont b3 in
              if is_cont b1 \<and> is_cont b2 \<and> is_cont b3 \<and> 0x10000 \<le> v \<and> v < 0x110000
              then cons_char v (utf8_decode r)
              else Inl UnicodeDecodeError)
         | _ \<Rightarrow> Inl UnicodeDecodeError)
      else Inl UnicodeDecodeError)"


section \<open>Libraries and the repository on disk\<close>

text \<open>
  The digest function and the compressor belong to the Python library
  (\<open>hashlib.sha1\<close>, \<open>zlib\<close>), not to this program: they are parameters of the model.
  A digest is a 160-bit number, which \<open>hexdigest\<close> renders as 40 lower-case
  hexadecimal digits.
\<close>

record library =
  sha1 :: "bytes \<Rightarrow> nat"
  compress :: "bytes \<Rightarrow> bytes"
  decompress :: "bytes \<Rightarrow> bytes option"

definition hexdigest :: "library \<Rightarrow> bytes \<Rightarrow> str" where
  "hexdigest L bs = format_hex40 (sha1 L bs mod 2 ^ 160)"

text \<open>
  A \<open>GitRepository\<close> with the part of its \<open>.git\<close> directory the program works on. \<open>objects\<close> maps the name
  of a subdirectory of \<open>.git/objects\<close> to its listing, the files in the order in which
  \<open>os.listdir\<close> returns them; \<open>refs\<close> maps the path of a file under \<open>.git\<close> to its
  text; \<open>index_file\<close> is the content of \<open>.git/index\<close>. A name is looked up as it
  is: names with a path separator or a dot segment, which \<open>repo_path\<close> would
  normalise or refuse, are outside the model.
\<close>

record repository =
  worktree :: str
  gitdir :: str
  objects :: "str \<rightharpoonup> (str \<times> bytes) list"
  refs :: "str \<rightharpoonup> str"
  index_file :: "bytes option"

section \<open>Objects (objects.py)\<close>

text \<open>A \<open>kvlm\<close> is the dictionary of a commit or tag, in insertion order. The key
  \<open>None\<close> holds the message; a field that occurs several times holds a list.\<close>

datatype kvlm_value = Single bytes | Multi "bytes list"

type_synonym kvlm = "(bytes option \<times> kvlm_value) list"

record GitTreeLeaf =
  mode :: bytes
  path :: str
  sha :: str

datatype GitObject =
    GitBlob bytes
  | GitCommit kvlm
  | GitTag kvlm
  | GitTree "GitTreeLeaf list"

fun fmt :: "GitObject \<Rightarrow> bytes" where
  "fmt (GitBlob _) = ''blob''"
| "fmt (GitCommit _) = ''commit''"
| "fmt (GitTag _) = ''tag''"
| "fmt (GitTree _) = ''tree''"

subsection \<open>Key-value list with message\<close>

text \<open>The inner loop of \<open>kvlm_parse\<close>: from \<open>end\<close>, the next newline that is not
  followed by a space. It need not end: with no newline left \<open>find\<close> answers \<open>-1\<close>
  and the search starts again at the front.\<close>

partial_function (option) kvlm_value_end :: "bytes \<Rightarrow> int \<Rightarrow> (error + int) option" where
  "kvlm_value_end raw e =
     (let e' = py_find raw NL (e + 1) in
      case py_get raw (e' + 1) of
        Inl err \<Rightarrow> Some (Inl err)
      | Inr c \<Rightarrow> if c \<noteq> SP then Some (Inr e') else kvlm_value_end raw e')"

declare kvlm_value_end.simps [code]

definition kvlm_add :: "kvlm \<Rightarrow> bytes \<Rightarrow> bytes \<Rightarrow> kvlm" where
  "kvlm_add dct key v =
     (case map_of dct (Some key) of
        None \<Rightarrow> AList.update (Some key) (Single v) dct
      | Some (Multi vs) \<Rightarrow> AList.update (Some key) (Multi (vs @ [v])) dct
      | Some (Single v0) \<Rightarrow> AList.update (Some key) (Multi [v0, v]) dct)"

partial_function (option) kvlm_parse_from :: "bytes \<Rightarrow> int \<Rightarrow> kvlm \<Rightarrow> (error + kvlm) option" where
  "kvlm_parse_from raw start dct =
     (let spc = py_find raw SP start; nl = py_find raw NL start in
      if spc < 0 \<or> nl < spc then
        (if nl = start
         then Some (Inr (AList.update None (Single (py_slice_from raw (start + 1))) dct))
         else Some (Inl AssertionError))
      else
        Option.bind (kvlm_value_end raw start)
          (\<lambda>r. case r of
                  Inl err \<Rightarrow> Some (Inl err)
                | Inr e \<Rightarrow>
                    kvlm_parse_from raw (e + 1)
                      (kvlm_add dct (py_slice raw start spc)
                         (py_replace (py_slice raw (spc + 1) e) [NL, SP] [NL]))))"

declare kvlm_parse_from.simps [code]

definition kvlm_parse :: "bytes \<Rightarrow> (error + kvlm) option" where
  "kvlm_parse raw = kvlm_parse_from raw 0 []"

definition kvlm_lines :: "bytes \<Rightarrow> kvlm_value \<Rightarrow> bytes" where
  "kvlm_lines k val =
     concat (map (\<lambda>v. k @ [SP] @ py_replace v [NL] [NL, SP] @ [NL])
               (case val of Single v \<Rightarrow> [v] | Multi vs \<Rightarrow> vs))"

fun kvlm_fields :: "kvlm \<Rightarrow> bytes" where
  "kvlm_fields [] = []"
| "kvlm_fields ((None, val) # rest) = kvlm_fields rest"
| "kvlm_fields ((Some k, val) # rest) = kvlm_lines k val @ kvlm_fields rest"

definition kvlm_serialize :: "kvlm \<Rightarrow> error + bytes" where
  "kvlm_serialize dct =
     (case map_of dct None of
        None \<Rightarrow> Inl KeyError
      | Some (Multi _) \<Rightarrow> Inl TypeError
      | Some (Single msg) \<Rightarrow> Inr (kvlm_fields dct @ [NL] @ msg))"

subsection \<open>Trees\<close>

definition tree_parse_one :: "bytes \<Rightarrow> int \<Rightarrow> error + (int \<times> GitTreeLeaf)" where
  "tree_parse_one raw start =
     (let x = py_find raw SP start in
      if \<not> (x - start = 5 \<or> x - start = 6) then Inl AssertionError
      else
        let m = py_slice raw start x;
            m' = (if length m = 5 then ''0'' @ m else m);
            y = py_find raw NUL x;
            raw_sha = from_bytes (py_slice raw (y + 1) (y + 21))
        in case utf8_decode (py_slice raw (x + 1) y) of
             Inl e \<Rightarrow> Inl e
           | Inr p \<Rightarrow> Inr (y + 21, \<lparr>mode = m', path = p, sha = format_hex40 raw_sha\<rparr>))"

partial_function (option) tree_parse_from ::
  "bytes \<Rightarrow> int \<Rightarrow> GitTreeLeaf list \<Rightarrow> (error + GitTreeLeaf list) option" where
  "tree_parse_from raw pos ret =
     (if pos < int (length raw) then
        (case tree_parse_one raw pos of
           Inl e \<Rightarrow> Some (Inl e)
         | Inr (pos', leaf) \<Rightarrow> tree_parse_from raw pos' (ret @ [leaf]))
      else Some (Inr ret))"

declare tree_parse_from.simps [code]

definition tree_parse :: "bytes \<Rightarrow> (error + GitTreeLeaf list) option" where
  "tree_parse raw = tree_parse_from raw 0 []"

definition tree_leaf_sort_key :: "GitTreeLeaf \<Rightarrow> str" where
  "tree_leaf_sort_key leaf =
     (if startswith (mode leaf) ''10'' then path leaf else path leaf @ ascii ''/'')"

definition leaf_bytes :: "GitTreeLeaf \<Rightarrow> error + bytes" where
  "leaf_bytes i =
     (case utf8_encode (path i) of
        Inl e \<Rightarrow> Inl e
      | Inr p \<Rightarrow>
          (case py_int 16 (sha i) of
             Inl e \<Rightarrow> Inl e
           | Inr n \<Rightarrow>
               if n < 0 then Inl OverflowError
               else (case to_bytes 20 (nat n) of
                       Inl e \<Rightarrow> Inl e
                     | Inr d \<Rightarrow> Inr (mode i @ [SP] @ p @ [NUL] @ d))))"

fun tree_items_bytes :: "GitTreeLeaf list \<Rightarrow> error + bytes" where
  "tree_items_bytes [] = Inr []"
| "tree_items_bytes (i # rest) =
     (case leaf_bytes i of
        Inl e \<Rightarrow> Inl e
      | Inr b \<Rightarrow> (case tree_items_bytes rest of Inl e \<Rightarrow> Inl e | Inr bs \<Rightarrow> Inr (b @ bs)))"

text \<open>\<open>tree_serialize\<close> sorts the items of the tree in place (a stable sort on the key)
  and writes them in that order.\<close>

definition tree_serialize :: "GitTreeLeaf list \<Rightarrow> error + bytes" where
  "tree_serialize items = tree_items_bytes (sort_key tree_leaf_sort_key items)"

subsection \<open>Serialising, writing and reading an object\<close>

fun serialize :: "GitObject \<Rightarrow> error + bytes" where
  "serialize (GitBlob blobdata) = Inr blobdata"
| "serialize (GitCommit dct) = kvlm_serialize dct"
| "serialize (GitTag dct) = kvlm_serialize dct"
| "serialize (GitTree items) = tree_serialize items"

definition frame :: "bytes \<Rightarrow> bytes \<Rightarrow> bytes" where
  "frame kind data = kind @ [SP] @ str_bytes (length data) @ [NUL] @ data"

text \<open>The file of an object: subdirectory \<open>sha[0:2]\<close>, name \<open>sha[2:]\<close>.\<close>

definition store_object :: "repository \<Rightarrow> str \<Rightarrow> bytes \<Rightarrow> repository" where
  "store_object r s content =
     (let d = take 2 s; f = drop 2 s;
          listing = (case objects r d of None \<Rightarrow> [] | Some l \<Rightarrow> l)
      in if map_of listing f \<noteq> None then r\<lparr>objects := (objects r)(d \<mapsto> listing)\<rparr>
         else r\<lparr>objects := (objects r)(d \<mapsto> listing @ [(f, content)])\<rparr>)"

text \<open>\<open>object_write\<close>, with the repository given (\<open>Some r\<close>) or not. The subdirectory
  is created if missing; the file is written only if no file of that name exists.\<close>

definition object_write ::
  "library \<Rightarrow> GitObject \<Rightarrow> repository option \<Rightarrow> error + (str \<times> repository option)" where
  "object_write L obj repo =
     (case serialize obj of
        Inl e \<Rightarrow> Inl e
      | Inr data \<Rightarrow>
          (let result = frame (fmt obj) data;
               s = hexdigest L result
           in Inr (s, map_option (\<lambda>r. store_object r s (compress L result)) repo)))"

definition deserialize :: "bytes \<Rightarrow> bytes \<Rightarrow> (error + GitObject) option" where
  "deserialize kind data =
     (if kind = ''commit'' then map_option (map_sum id GitCommit) (kvlm_parse data)
      else if kind = ''tree'' then map_option (map_sum id GitTree) (tree_parse data)
      else if kind = ''tag'' then map_option (map_sum id GitTag) (kvlm_parse data)
      else Some (Inr (GitBlob data)))"

definition is_kind :: "bytes \<Rightarrow> bool" where
  "is_kind kind = (kind \<in> {''commit'', ''tree'', ''tag'', ''blob''})"

text \<open>\<open>object_read\<close>: \<open>None\<close> inside the result is Python's \<open>None\<close> (no such file);
  where the subdirectory itself is missing, \<open>repo_file\<close> gives no path and
  \<open>os.path.isfile\<close> raises \<open>TypeError\<close>.\<close>

definition object_read ::
  "library \<Rightarrow> repository \<Rightarrow> str \<Rightarrow> (error + GitObject option) option" where
  "object_read L r s =
     (case objects r (take 2 s) of
        None \<Rightarrow> Some (Inl TypeError)
      | Some listing \<Rightarrow>
          (case map_of listing (drop 2 s) of
             None \<Rightarrow> Some (Inr None)
           | Some content \<Rightarrow>
               (case decompress L content of
                  None \<Rightarrow> Some (Inl ZlibError)
                | Some raw \<Rightarrow>
                    (let x = py_find raw SP 0;
                         kind = py_slice raw 0 x;
                         y = py_find raw NUL x
                     in case decode_ascii (py_slice raw x y) of
                          Inl e \<Rightarrow> Some (Inl e)
                        | Inr txt \<Rightarrow>
                            (case py_int 10 txt of
                               Inl e \<Rightarrow> Some (Inl e)
                             | Inr sz \<Rightarrow>
                                 if sz \<noteq> int (length raw) - y - 1
                                 then Some (Inl (MalformedObject s))
                                 else if \<not> is_kind kind then
                                   (case decode_ascii kind of
                                      Inl e \<Rightarrow> Some (Inl e)
                                    | Inr k \<Rightarrow> Some (Inl (UnknownType k s)))
                                 else map_option (map_sum id Some)
                                        (deserialize kind (py_slice_from raw (y + 1))))))))"


subsection \<open>References and names (repo.py, objects.py)\<close>

text \<open>\<open>ref_resolve\<close> follows symbolic references. The outer \<open>None\<close> stands for a
  recursion that does not end (a cycle of references); the inner one is Python's.\<close>

partial_function (option) ref_resolve :: "repository \<Rightarrow> str \<Rightarrow> str option option" where
  "ref_resolve r ref =
     (case refs r ref of
        None \<Rightarrow> Some None
      | Some text \<Rightarrow>
          (let data = butlast text
           in if startswith data (ascii ''ref: '') then ref_resolve r (drop 5 data)
              else Some (Some data)))"

declare ref_resolve.simps [code]

definition is_hex :: "nat \<Rightarrow> bool" where
  "is_hex c = ((48 \<le> c \<and> c \<le> 57) \<or> (65 \<le> c \<and> c \<le> 70) \<or> (97 \<le> c \<and> c \<le> 102))"

text \<open>\<open>hashRE.match\<close> for \<open>^[0-9A-Fa-f]{4,40}$\<close>; the dollar also matches before a
  newline that ends the string.\<close>

definition hashRE_match :: "str \<Rightarrow> bool" where
  "hashRE_match s =
     (let h = (if s \<noteq> [] \<and> last s = 10 then butlast s else s)
      in 4 \<le> length h \<and> length h \<le> 40 \<and> (\<forall>c \<in> set h. is_hex c))"

text \<open>\<open>name.lower()\<close>, taken only of a name that matched \<open>hashRE\<close>.\<close>

definition lower :: "str \<Rightarrow> str" where
  "lower s = map (\<lambda>c. if 65 \<le> c \<and> c \<le> 90 then c + 32 else c) s"

text \<open>A value that Python takes as true in \<open>if as_tag:\<close>.\<close>

definition truthy :: "str option \<Rightarrow> bool" where
  "truthy v = (v \<noteq> None \<and> v \<noteq> Some [])"

definition ref_candidate :: "str option option \<Rightarrow> str option list" where
  "ref_candidate v = (case v of Some w \<Rightarrow> (if truthy w then [w] else []) | None \<Rightarrow> [])"

text \<open>\<open>object_resolve\<close>: Python's \<open>None\<close> or the list of candidates (in which
  \<open>HEAD\<close> can put a \<open>None\<close>); the outer \<open>None\<close> as in \<open>ref_resolve\<close>.\<close>

definition object_resolve :: "repository \<Rightarrow> str \<Rightarrow> str option list option option" where
  "object_resolve r nm =
     (if strip nm = [] then Some None
      else if nm = ascii ''HEAD'' then map_option (\<lambda>v. Some [v]) (ref_resolve r (ascii ''HEAD''))
      else
        let nm' = (if hashRE_match nm then lower nm else nm);
            found = (if hashRE_match nm then
                       (case objects r (take 2 nm') of
                          None \<Rightarrow> []
                        | Some listing \<Rightarrow>
                            map (\<lambda>f. Some (take 2 nm' @ f))
                              (filter (\<lambda>f. startswith f (drop 2 nm')) (map fst listing)))
                     else [])
        in case ref_resolve r (ascii ''refs/tags/'' @ nm') of
             None \<Rightarrow> None
           | Some as_tag \<Rightarrow>
               (case ref_resolve r (ascii ''refs/heads/'' @ nm') of
                  None \<Rightarrow> None
                | Some as_branch \<Rightarrow>
                    (case ref_resolve r (ascii ''refs/remotes/'' @ nm') of
                       None \<Rightarrow> None
                     | Some as_remote \<Rightarrow>
                         Some (Some (found @ ref_candidate (Some as_tag)
                                       @ ref_candidate (Some as_branch)
                                       @ ref_candidate (Some as_remote))))))"

text \<open>\<open>obj.kvlm[key].decode("ascii")\<close>.\<close>

definition kvlm_field :: "GitObject \<Rightarrow> bytes \<Rightarrow> error + str" where
  "kvlm_field obj key =
     (case obj of
        GitBlob _ \<Rightarrow> Inl AttributeError
      | GitTree _ \<Rightarrow> Inl AttributeError
      | GitCommit dct \<Rightarrow>
          (case map_of dct (Some key) of
             None \<Rightarrow> Inl KeyError
           | Some (Multi _) \<Rightarrow> Inl AttributeError
           | Some (Single v) \<Rightarrow> decode_ascii v)
      | GitTag dct \<Rightarrow>
          (case map_of dct (Some key) of
             None \<Rightarrow> Inl KeyError
           | Some (Multi _) \<Rightarrow> Inl AttributeError
           | Some (Single v) \<Rightarrow> decode_ascii v))"

text \<open>The next digest in the loop of \<open>object_find\<close>: the \<open>object\<close> of a tag, the
  \<open>tree\<close> of a commit when a tree is wanted, and otherwise none.\<close>

definition dereference :: "bytes \<Rightarrow> GitObject \<Rightarrow> (error + str) option" where
  "dereference wanted obj =
     (if fmt obj = ''tag'' then Some (kvlm_field obj ''object'')
      else if fmt obj = ''commit'' \<and> wanted = ''tree'' then Some (kvlm_field obj ''tree'')
      else None)"

text \<open>The loop \<open>while True\<close> of \<open>object_find\<close>. Reading with \<open>None\<close> for a name
  raises \<open>TypeError\<close>, and a missing file gives \<open>None\<close>, which has no \<open>fmt\<close>.\<close>

partial_function (option) find_loop ::
  "library \<Rightarrow> repository \<Rightarrow> bytes \<Rightarrow> bool \<Rightarrow> str \<Rightarrow> (error + str option) option" where
  "find_loop L r wanted follow s =
     Option.bind (object_read L r s)
       (\<lambda>res. case res of
                 Inl e \<Rightarrow> Some (Inl e)
               | Inr None \<Rightarrow> Some (Inl AttributeError)
               | Inr (Some obj) \<Rightarrow>
                   if fmt obj = wanted then Some (Inr (Some s))
                   else if \<not> follow then Some (Inr None)
                   else (case dereference wanted obj of
                           None \<Rightarrow> Some (Inr None)
                         | Some (Inl e) \<Rightarrow> Some (Inl e)
                         | Some (Inr s') \<Rightarrow> find_loop L r wanted follow s'))"

declare find_loop.simps [code]

definition object_find ::
  "library \<Rightarrow> repository \<Rightarrow> str \<Rightarrow> bytes option \<Rightarrow> bool \<Rightarrow> (error + str option) option" where
  "object_find L r nm wanted follow =
     (case object_resolve r nm of
        None \<Rightarrow> None
      | Some None \<Rightarrow> Some (Inl (NoSuchReference nm))
      | Some (Some []) \<Rightarrow> Some (Inl (NoSuchReference nm))
      | Some (Some [s]) \<Rightarrow>
          (if wanted = None \<or> wanted = Some [] then Some (Inr s)
           else case s of
                  None \<Rightarrow> Some (Inl TypeError)
                | Some s' \<Rightarrow> find_loop L r (the wanted) follow s')
      | Some (Some cs) \<Rightarrow>
          (if None \<in> set cs then Some (Inl TypeError)
           else Some (Inl (AmbiguousReference nm (map the cs)))))"

section \<open>The staging index (index.py)\<close>

record GitIndexEntry =
  ctime :: "nat \<times> nat"
  mtime :: "nat \<times> nat"
  dev :: nat
  ino :: nat
  mode_type :: nat
  mode_perms :: nat
  uid :: nat
  gid :: nat
  fsize :: nat
  entry_sha :: str
  flag_assume_valid :: bool
  flag_stage :: nat
  name :: str

record GitIndex =
  version :: nat
  entries :: "GitIndexEntry list"

subsection \<open>Paths\<close>

text \<open>\<open>os.path.dirname\<close> and \<open>os.path.basename\<close> of \<open>posixpath\<close>; the separator is
  \<open>/\<close>, code point 47.\<close>

definition after_last_sep :: "str \<Rightarrow> nat" where
  "after_last_sep p = length p - length (takeWhile (\<lambda>c. c \<noteq> 47) (rev p))"

definition dirname :: "str \<Rightarrow> str" where
  "dirname p =
     (let head = take (after_last_sep p) p
      in if head \<noteq> [] \<and> head \<noteq> replicate (length head) 47
         then rev (dropWhile (\<lambda>c. c = 47) (rev head))
         else head)"

definition basename :: "str \<Rightarrow> str" where
  "basename p = drop (after_last_sep p) p"

subsection \<open>Building trees from the index\<close>

text \<open>A value of \<open>contents\<close> lists, for a directory, its staged entries and, once they
  are written, its subdirectories as pairs of name and digest.\<close>

datatype item = Entry GitIndexEntry | Subtree str str

type_synonym contents = "(str \<times> item list) list"

text \<open>The loop \<open>while key != ""\<close>, which registers a directory and its ancestors. It
  does not end for a path whose \<open>dirname\<close> is the path itself (\<open>/\<close>).\<close>

partial_function (option) add_ancestors :: "str \<Rightarrow> contents \<Rightarrow> contents option" where
  "add_ancestors key c =
     (if key = [] then Some c
      else add_ancestors (dirname key)
             (if map_of c key = None then AList.update key [] c else c))"

declare add_ancestors.simps [code]

definition append_item :: "str \<Rightarrow> item \<Rightarrow> contents \<Rightarrow> error + contents" where
  "append_item key i c =
     (case map_of c key of
        None \<Rightarrow> Inl KeyError
      | Some l \<Rightarrow> Inr (AList.update key (l @ [i]) c))"

fun group_entries :: "GitIndexEntry list \<Rightarrow> contents \<Rightarrow> (error + contents) option" where
  "group_entries [] c = Some (Inr c)"
| "group_entries (e # es) c =
     (case add_ancestors (dirname (name e)) c of
        None \<Rightarrow> None
      | Some c' \<Rightarrow>
          (case append_item (dirname (name e)) (Entry e) c' of
             Inl err \<Rightarrow> Some (Inl err)
           | Inr c'' \<Rightarrow> group_entries es c''))"

text \<open>\<open>sorted(keys, key=len, reverse=True)\<close>: longest first, keys of equal length in
  their original order.\<close>

definition sorted_paths :: "contents \<Rightarrow> str list" where
  "sorted_paths c = rev (sort_key length (rev (map fst c)))"

fun leaf_of :: "item \<Rightarrow> GitTreeLeaf" where
  "leaf_of (Entry e) =
     \<lparr>mode = map char_of (format_oct 2 (mode_type e) @ format_oct 4 (mode_perms e)),
      path = basename (name e), sha = entry_sha e\<rparr>"
| "leaf_of (Subtree b s) = \<lparr>mode = ''040000'', path = b, sha = s\<rparr>"

text \<open>The loop over the sorted paths. Its state is \<open>contents\<close>, the last digest and the
  repository; \<open>written\<close> records, for the statement of properties only, the digest
  returned by each call of \<open>object_write\<close>, in order.\<close>

fun write_trees ::
  "library \<Rightarrow> str list \<Rightarrow> contents \<Rightarrow> str option \<Rightarrow> repository \<Rightarrow> str list \<Rightarrow>
   error + (str option \<times> repository \<times> str list)" where
  "write_trees L [] c s r written = Inr (s, r, written)"
| "write_trees L (p # ps) c s r written =
     (case map_of c p of
        None \<Rightarrow> Inl KeyError
      | Some l \<Rightarrow>
          (case object_write L (GitTree (map leaf_of l)) (Some r) of
             Inl e \<Rightarrow> Inl e
           | Inr (s', r') \<Rightarrow>
               (case append_item (dirname p) (Subtree (basename p) s') c of
                  Inl e \<Rightarrow> Inl e
                | Inr c' \<Rightarrow> write_trees L ps c' (Some s') (the r') (written @ [s']))))"

definition build_trees ::
  "library \<Rightarrow> repository \<Rightarrow> GitIndex \<Rightarrow>
   (error + (str option \<times> repository \<times> str list)) option" where
  "build_trees L r idx =
     (case group_entries (entries idx) [([], [])] of
        None \<Rightarrow> None
      | Some (Inl e) \<Rightarrow> Some (Inl e)
      | Some (Inr c) \<Rightarrow> Some (write_trees L (sorted_paths c) c None r []))"

text \<open>\<open>tree_from_index\<close>: the digest of the last tree written, and the repository
  after the writes.\<close>

definition tree_from_index ::
  "library \<Rightarrow> repository \<Rightarrow> GitIndex \<Rightarrow> (error + (str option \<times> repository)) option" where
  "tree_from_index L r idx =
     map_option (map_sum id (\<lambda>(s, r', written). (s, r'))) (build_trees L r idx)"

section \<open>Notions used in the statements\<close>

text \<open>The digits of a number at a fixed width, and the value of a digit string.\<close>

fun fixed_digits :: "nat \<Rightarrow> nat \<Rightarrow> nat \<Rightarrow> str" where
  "fixed_digits b 0 n = []"
| "fixed_digits b (Suc k) n = fixed_digits b k (n div b) @ [digit_char (n mod b)]"

definition is_digit :: "nat \<Rightarrow> nat \<Rightarrow> bool" where
  "is_digit b c = (\<exists>d < b. c = digit_char d)"

definition digits_nat :: "nat \<Rightarrow> str \<Rightarrow> nat" where
  "digits_nat b ds = foldl (\<lambda>a c. a * b + the (digit_val c)) 0 ds"

text \<open>A digest as this program renders it: 40 hexadecimal digits, lower case.\<close>

definition is_digest :: "str \<Rightarrow> bool" where
  "is_digest s = (length s = 40 \<and> (\<forall>c \<in> set s. is_digit 16 c))"

text \<open>The three parts of the content of an object file, as \<open>object_read\<close> cuts them:
  the kind before the first space, the length between that space and the first NUL
  after it, the payload after that NUL.\<close>

definition length_field :: "bytes \<Rightarrow> error + int" where
  "length_field raw =
     (let x = py_find raw SP 0; y = py_find raw NUL x
      in case decode_ascii (py_slice raw x y) of Inl e \<Rightarrow> Inl e | Inr txt \<Rightarrow> py_int 10 txt)"

definition kind_of :: "bytes \<Rightarrow> bytes" where
  "kind_of raw = py_slice raw 0 (py_find raw SP 0)"

definition payload_of :: "bytes \<Rightarrow> bytes" where
  "payload_of raw = py_slice_from raw (py_find raw NUL (py_find raw SP 0) + 1)"

text \<open>An object file of that name exists.\<close>

definition has_object :: "repository \<Rightarrow> str \<Rightarrow> bool" where
  "has_object r s =
     (case objects r (take 2 s) of None \<Rightarrow> False | Some l \<Rightarrow> map_of l (drop 2 s) \<noteq> None)"

text \<open>Stand-ins for the library, used where a statement is instantiated: a polynomial
  checksum for the digest, a one-byte envelope for the compressor.\<close>

definition demo_library :: library where
  "demo_library =
     \<lparr>sha1 = foldl (\<lambda>a c. a * 31 + of_char c + 7) 0,
      compress = (\<lambda>bs. CHR ''z'' # bs),
      decompress = (\<lambda>bs. case bs of [] \<Rightarrow> None | c # cs \<Rightarrow> if c = CHR ''z'' then Some cs else None)\<rparr>"

definition empty_repository :: repository where
  "empty_repository =
     \<lparr>worktree = ascii ''/w'', gitdir = ascii ''/w/.git'', objects = Map.empty, refs = Map.empty,
      index_file = None\<rparr>"

definition demo_entry :: "string \<Rightarrow> nat \<Rightarrow> GitIndexEntry" where
  "demo_entry p n =
     \<lparr>ctime = (1700000000, 5), mtime = (1700000001, 6), dev = 2049, ino = 77, mode_type = 8,
      mode_perms = 420, uid = 1000, gid = 1000, fsize = 12, entry_sha = format_hex40 n,
      flag_assume_valid = False, flag_stage = 0, name = ascii p\<rparr>"

text \<open>A repository with two object files whose names share the prefix \<open>abcd\<close>: a
  blob of three bytes, and a file whose header announces five bytes before a payload of
  three.\<close>

definition blob_name :: str where
  "blob_name = ascii ''abcd000000000000000000000000000000000001''"

definition bad_name :: str where
  "bad_name = ascii ''abcd000000000000000000000000000000000002''"

definition demo_repository :: repository where
  "demo_repository =
     \<lparr>worktree = ascii ''/w'', gitdir = ascii ''/w/.git'',
      objects = [ascii ''ab'' \<mapsto>
                   [(drop 2 blob_name, CHR ''z'' # ''blob 3'' @ [NUL] @ ''abc''),
                    (drop 2 bad_name, CHR ''z'' # ''blob 5'' @ [NUL] @ ''abc'')]],
      refs = Map.empty, index_file = None\<rparr>"

section \<open>Properties of the Python values\<close>

subsection \<open>find, slices\<close>

lemma index_from_notin: "c \<notin> set xs \<Longrightarrow> index_from c xs i = -1"
  by (induction xs arbitrary: i) auto

lemma index_from_first: "c \<notin> set xs \<Longrightarrow> index_from c (xs @ c # ys) i = int (i + length xs)"
  by (induction xs arbitrary: i) auto

lemma index_from_range: "index_from c xs i = -1 \<or> (int i \<le> index_from c xs i \<and> index_from c xs i < int (i + length xs))"
proof (induction xs arbitrary: i)
  case Nil
  then show ?case by simp
next
  case (Cons x xs)
  from Cons.IH [of "Suc i"] show ?case by auto
qed

lemma py_find_range: "-1 \<le> py_find xs c s \<and> py_find xs c s < int (length xs)"
proof -
  have "-1 \<le> index_from c (drop k xs) k \<and> index_from c (drop k xs) k < int (length xs)"
    if "k \<le> length xs" for k
    using index_from_range [of c "drop k xs" k] that by auto
  then show ?thesis
    by (auto simp: py_find_def Let_def)
qed

lemma py_find_at:
  "c \<notin> set mid \<Longrightarrow> xs = pre @ mid @ c # rest \<Longrightarrow> i = int (length pre) \<Longrightarrow>
   py_find xs c i = int (length pre + length mid)"
  by (simp add: py_find_def index_from_first)

lemma py_find_none:
  "c \<notin> set mid \<Longrightarrow> xs = pre @ mid \<Longrightarrow> i = int (length pre) \<Longrightarrow> py_find xs c i = -1"
  by (simp add: py_find_def index_from_notin)

lemma py_slice_mid:
  "xs = pre @ mid @ rest \<Longrightarrow> i = int (length pre) \<Longrightarrow> j = int (length pre + length mid) \<Longrightarrow>
   py_slice xs i j = mid"
  by (simp add: py_slice_def py_clamp_def)

lemma py_slice_from_at: "xs = pre @ rest \<Longrightarrow> i = int (length pre) \<Longrightarrow> py_slice_from xs i = rest"
  by (simp add: py_slice_from_def py_clamp_def)

lemma py_get_at: "xs = pre @ x # rest \<Longrightarrow> i = int (length pre) \<Longrightarrow> py_get xs i = Inr x"
  by (simp add: py_get_def)

subsection \<open>Digits\<close>

lemma char_of_eq: "char_of (n::nat) = c \<longleftrightarrow> n mod 256 = of_char c"
  by (simp add: char_of_eq_iff take_bit_eq_mod)

lemma eq_char_of: "c = char_of (n::nat) \<longleftrightarrow> n mod 256 = of_char c"
  using char_of_eq [of n c] by auto

lemma digit_val_digit_char: "d < 36 \<Longrightarrow> digit_val (digit_char d) = Some d"
  by (auto simp: digit_val_def digit_char_def)

lemma digit_char_not_special: "d < 36 \<Longrightarrow> digit_char d \<noteq> 95 \<and> \<not> is_space (digit_char d) \<and> digit_char d \<noteq> 45 \<and> digit_char d \<noteq> 43"
  by (auto simp: digit_char_def is_space_def)

lemma to_base_step: "2 \<le> b \<Longrightarrow> b \<le> n \<Longrightarrow> to_base b n = to_base b (n div b) @ [digit_char (n mod b)]"
  by (subst to_base.simps) simp

lemma to_base_small: "n < b \<Longrightarrow> to_base b n = [digit_char n]"
  by (subst to_base.simps) simp

lemma to_base_digits: "2 \<le> b \<Longrightarrow> \<forall>c \<in> set (to_base b n). is_digit b c"
proof (induction b n rule: to_base.induct)
  case (1 b n)
  show ?case
  proof (cases "n < b")
    case True
    then show ?thesis by (auto simp: to_base_small is_digit_def)
  next
    case False
    with 1 have "\<forall>c \<in> set (to_base b (n div b)). is_digit b c" by simp
    moreover have "n mod b < b" using 1(2) by simp
    then have "is_digit b (digit_char (n mod b))"
      unfolding is_digit_def by blast
    ultimately show ?thesis using False 1(2) by (simp add: to_base_step)
  qed
qed

lemma to_base_nonempty: "to_base b n \<noteq> []"
  by (subst to_base.simps) simp

lemma digits_value_digits:
  "b \<le> 36 \<Longrightarrow> \<forall>c \<in> set ds. is_digit b c \<Longrightarrow>
   digits_value b f acc (ds @ rest) =
     digits_value b (f \<or> ds \<noteq> []) (foldl (\<lambda>a c. a * b + the (digit_val c)) acc ds) rest"
proof (induction ds arbitrary: f acc)
  case Nil
  then show ?case by simp
next
  case (Cons c ds)
  from Cons.prems obtain d where d: "d < b" "c = digit_char d" by (auto simp: is_digit_def)
  with Cons.prems have "digit_val c = Some d" "c \<noteq> 95"
    using digit_val_digit_char [of d] digit_char_not_special [of d] by auto
  with d Cons show ?case by simp
qed

lemma digits_nat_snoc: "digits_nat b (ds @ [c]) = digits_nat b ds * b + the (digit_val c)"
  by (simp add: digits_nat_def)

lemma digits_nat_to_base: "2 \<le> b \<Longrightarrow> b \<le> 36 \<Longrightarrow> digits_nat b (to_base b n) = n"
proof (induction b n rule: to_base.induct)
  case (1 b n)
  show ?case
  proof (cases "n < b")
    case True
    with 1(3) show ?thesis by (simp add: to_base_small digits_nat_def digit_val_digit_char)
  next
    case False
    with 1 have "digits_nat b (to_base b (n div b)) = n div b" by simp
    moreover have "n mod b < 36" using 1(2,3) by (simp add: less_le_trans [OF mod_less_divisor])
    then have "the (digit_val (digit_char (n mod b))) = n mod b"
      by (simp add: digit_val_digit_char)
    ultimately show ?thesis using False 1(2) by (simp add: to_base_step digits_nat_snoc)
  qed
qed

lemma digits_value_to_base:
  assumes "2 \<le> b" "b \<le> 36"
  shows "digits_value b f 0 (to_base b n) = Some n"
proof -
  have "digits_value b f 0 (to_base b n @ []) = digits_value b True (digits_nat b (to_base b n)) []"
    using digits_value_digits [OF assms(2) to_base_digits [OF assms(1)], of f 0 n "[]"]
    by (simp add: to_base_nonempty digits_nat_def)
  then show ?thesis using assms by (simp add: digits_nat_to_base)
qed

lemma strip_digits:
  assumes "b \<le> 36" "\<forall>c \<in> set ds. is_digit b c"
  shows "strip ds = ds"
proof -
  have ns: "\<forall>c \<in> set ds. \<not> is_space c"
    using assms digit_char_not_special by (auto simp: is_digit_def)
  then have "dropWhile is_space ds = ds" by (cases ds) auto
  moreover from ns have "dropWhile is_space (rev ds) = rev ds" by (cases "rev ds") auto
  ultimately show ?thesis by (simp add: strip_def)
qed

lemma strip_space_digits:
  assumes "b \<le> 36" "\<forall>c \<in> set ds. is_digit b c" "ds \<noteq> []"
  shows "strip (32 # ds) = ds"
proof -
  have ns: "\<forall>c \<in> set ds. \<not> is_space c"
    using assms digit_char_not_special by (auto simp: is_digit_def)
  then have a: "dropWhile is_space (32 # ds) = ds" using assms(3) by (cases ds) (auto simp: is_space_def)
  moreover from ns have "dropWhile is_space (rev ds) = rev ds" by (cases "rev ds") auto
  ultimately show ?thesis by (simp add: strip_def del: dropWhile.simps)
qed

lemma py_int_decimal: "py_int 10 (32 # to_base 10 n) = Inr (int n)"
proof -
  let ?ds = "to_base 10 n"
  have dg: "\<forall>c \<in> set ?ds. is_digit 10 c" by (rule to_base_digits) simp
  have ne: "?ds \<noteq> []" by (rule to_base_nonempty)
  have st: "strip (32 # ?ds) = ?ds" by (rule strip_space_digits [OF _ dg ne]) simp
  from ne dg have "is_digit 10 (hd ?ds)" by (cases ?ds) auto
  then have hd: "hd ?ds \<noteq> 45 \<and> hd ?ds \<noteq> 43"
    using digit_char_not_special by (auto simp: is_digit_def)
  show ?thesis
    using hd ne by (simp add: py_int_def st Let_def digits_value_to_base)
qed

lemma fixed_digits_zero: "fixed_digits b k 0 = replicate k 48"
  by (induction k) (simp_all add: digit_char_def replicate_append_same)

lemma length_fixed_digits: "length (fixed_digits b k n) = k"
  by (induction k arbitrary: n) simp_all

lemma fixed_digits_digits: "0 < b \<Longrightarrow> \<forall>c \<in> set (fixed_digits b k n). is_digit b c"
proof (induction k arbitrary: n)
  case 0
  then show ?case by simp
next
  case (Suc k)
  have "n mod b < b" using Suc.prems by simp
  then have "is_digit b (digit_char (n mod b))" unfolding is_digit_def by blast
  with Suc show ?case by simp
qed

lemma length_to_base: "2 \<le> b \<Longrightarrow> n < b ^ k \<Longrightarrow> 0 < k \<Longrightarrow> length (to_base b n) \<le> k"
proof (induction b n arbitrary: k rule: to_base.induct)
  case (1 b n)
  show ?case
  proof (cases "n < b")
    case True
    with 1(4) show ?thesis by (simp add: to_base_small)
  next
    case False
    from 1(4) obtain j where k: "k = Suc j" by (cases k) auto
    with 1(3) have "n div b < b ^ j"
      by (simp add: less_mult_imp_div_less mult.commute)
    moreover from False 1(2) have "0 < n div b"
      by (simp add: div_greater_zero_iff)
    then have "0 < j" using \<open>n div b < b ^ j\<close> by (cases j) auto
    ultimately have "length (to_base b (n div b)) \<le> j"
      using 1(1) [of j] False 1(2) by simp
    with False 1(2) k show ?thesis by (simp add: to_base_step)
  qed
qed

lemma zero_pad_to_base:
  "2 \<le> b \<Longrightarrow> n < b ^ k \<Longrightarrow> 0 < k \<Longrightarrow> zero_pad k (to_base b n) = fixed_digits b k n"
proof (induction k arbitrary: n)
  case 0
  then show ?case by simp
next
  case (Suc k)
  show ?case
  proof (cases "n < b")
    case True
    then show ?thesis
      by (simp add: to_base_small zero_pad_def fixed_digits_zero)
  next
    case False
    from Suc.prems have lt: "n div b < b ^ k"
      by (simp add: less_mult_imp_div_less mult.commute)
    from False Suc.prems have "0 < n div b" by (simp add: div_greater_zero_iff)
    then have k: "0 < k" using lt by (cases k) auto
    have len: "length (to_base b (n div b)) \<le> k"
      using length_to_base [OF Suc.prems(1) lt k] .
    have "zero_pad k (to_base b (n div b)) = fixed_digits b k (n div b)"
      using Suc.IH [OF Suc.prems(1) lt k] .
    then show ?thesis
      using False Suc.prems(1) len by (simp add: to_base_step zero_pad_def Suc_diff_le)
  qed
qed

lemma format_hex40_fixed: "n < 2 ^ 160 \<Longrightarrow> format_hex40 n = fixed_digits 16 40 n"
proof -
  assume "n < 2 ^ 160"
  then have "n < (16::nat) ^ 40" by simp
  then show ?thesis unfolding format_hex40_def by (intro zero_pad_to_base) simp_all
qed

lemma is_digest_format: "n < 2 ^ 160 \<Longrightarrow> is_digest (format_hex40 n)"
  by (simp add: format_hex40_fixed is_digest_def length_fixed_digits fixed_digits_digits)

lemma is_digest_hexdigest: "is_digest (hexdigest L bs)"
  by (simp add: hexdigest_def is_digest_format)

lemma digits_nat_bound: "2 \<le> b \<Longrightarrow> b \<le> 36 \<Longrightarrow> \<forall>c \<in> set ds. is_digit b c \<Longrightarrow> digits_nat b ds < b ^ length ds"
proof (induction ds rule: rev_induct)
  case Nil
  then show ?case by (simp add: digits_nat_def)
next
  case (snoc c ds)
  then obtain d where d: "d < b" "c = digit_char d" by (auto simp: is_digit_def)
  with snoc.prems have dv: "the (digit_val c) = d" by (simp add: digit_val_digit_char)
  from snoc have "digits_nat b ds < b ^ length ds" by simp
  then have "digits_nat b ds + 1 \<le> b ^ length ds" by simp
  then have "(digits_nat b ds + 1) * b \<le> b ^ length ds * b" by (rule mult_le_mono1)
  with d(1) have "digits_nat b ds * b + d < b ^ length ds * b" by (simp add: algebra_simps)
  then show ?case by (simp add: digits_nat_snoc dv mult.commute)
qed

lemma fixed_digits_digits_nat:
  "2 \<le> b \<Longrightarrow> b \<le> 36 \<Longrightarrow> \<forall>c \<in> set ds. is_digit b c \<Longrightarrow> fixed_digits b (length ds) (digits_nat b ds) = ds"
proof (induction ds rule: rev_induct)
  case Nil
  then show ?case by simp
next
  case (snoc c ds)
  then obtain d where d: "d < b" "c = digit_char d" by (auto simp: is_digit_def)
  with snoc.prems have dv: "the (digit_val c) = d" by (simp add: digit_val_digit_char)
  from snoc have "fixed_digits b (length ds) (digits_nat b ds) = ds" by simp
  with d(1) show ?case unfolding digits_nat_snoc dv by (simp add: d(2))
qed

lemma py_int_hex_digits:
  assumes "\<forall>c \<in> set ds. is_digit 16 c" "ds \<noteq> []"
  shows "py_int 16 ds = Inr (int (digits_nat 16 ds))"
proof -
  have st: "strip ds = ds" by (rule strip_digits [OF _ assms(1)]) simp
  have nosign: "hd ds \<noteq> 45 \<and> hd ds \<noteq> 43"
    using assms digit_char_not_special by (cases ds) (auto simp: is_digit_def)
  have nox: "\<not> startswith ds [48, 120] \<and> \<not> startswith ds [48, 88]"
  proof -
    have "c \<noteq> 120 \<and> c \<noteq> 88" if "is_digit 16 c" for c
      using that by (auto simp: is_digit_def digit_char_def split: if_splits)
    with assms(1) have "\<forall>c \<in> set ds. c \<noteq> 120 \<and> c \<noteq> 88" by blast
    then show ?thesis
      by (cases ds; cases "tl ds") (auto simp: startswith_def)
  qed
  have "digits_value 16 False 0 (ds @ []) = digits_value 16 True (digits_nat 16 ds) []"
    using digits_value_digits [of 16 ds False 0 "[]"] assms by (simp add: digits_nat_def)
  then show ?thesis using nosign nox assms(2)
    by (simp add: py_int_def st Let_def)
qed

lemma is_digest_roundtrip:
  assumes "is_digest s"
  shows "py_int 16 s = Inr (int (digits_nat 16 s)) \<and> digits_nat 16 s < 2 ^ 160
         \<and> format_hex40 (digits_nat 16 s) = s"
proof -
  from assms have dg: "\<forall>c \<in> set s. is_digit 16 c" and len: "length s = 40"
    by (auto simp: is_digest_def)
  from len have ne: "s \<noteq> []" by auto
  have "digits_nat 16 s < 16 ^ length s"
    by (rule digits_nat_bound [OF _ _ dg]) simp_all
  with len have lt: "digits_nat 16 s < 2 ^ 160" by simp
  have "fixed_digits 16 (length s) (digits_nat 16 s) = s"
    by (rule fixed_digits_digits_nat [OF _ _ dg]) simp_all
  with len lt have "format_hex40 (digits_nat 16 s) = s" by (simp add: format_hex40_fixed)
  with lt py_int_hex_digits [OF dg ne] show ?thesis by simp
qed

subsection \<open>bytes\<close>

lemma length_be_bytes: "length (be_bytes k n) = k"
  by (induction k arbitrary: n) simp_all

lemma from_bytes_snoc: "from_bytes (bs @ [c]) = from_bytes bs * 256 + of_char c"
  by (simp add: from_bytes_def)

lemma from_bytes_be_bytes: "n < 256 ^ k \<Longrightarrow> from_bytes (be_bytes k n) = n"
proof (induction k arbitrary: n)
  case 0
  then show ?case by (simp add: from_bytes_def)
next
  case (Suc k)
  then have "n div 256 < 256 ^ k" by (simp add: less_mult_imp_div_less mult.commute)
  with Suc.IH have "from_bytes (be_bytes k (n div 256)) = n div 256" by simp
  then show ?case by (simp add: from_bytes_snoc)
qed

lemma from_bytes_bound: "from_bytes bs < 256 ^ length bs"
proof (induction bs rule: rev_induct)
  case Nil
  then show ?case by (simp add: from_bytes_def)
next
  case (snoc c bs)
  have "(of_char c :: nat) < 256" by simp
  then have "from_bytes bs * 256 + of_char c < (from_bytes bs + 1) * 256"
    by simp
  also from snoc have "from_bytes bs + 1 \<le> 256 ^ length bs" by simp
  then have "(from_bytes bs + 1) * 256 \<le> 256 ^ length bs * 256" by (rule mult_le_mono1)
  finally show ?case by (simp add: from_bytes_snoc mult.commute)
qed

lemma be_bytes_from_bytes: "be_bytes (length bs) (from_bytes bs) = bs"
proof (induction bs rule: rev_induct)
  case Nil
  then show ?case by simp
next
  case (snoc c bs)
  have "(of_char c :: nat) < 256" by simp
  then show ?case using snoc by (simp add: from_bytes_snoc)
qed


section \<open>Reading an object checks its length\<close>

lemma length_payload_of:
  "int (length (payload_of raw)) = int (length raw) - py_find raw NUL (py_find raw SP 0) - 1"
  using py_find_range [of raw NUL "py_find raw SP 0"]
  by (auto simp: payload_of_def py_slice_from_def py_clamp_def)

lemma map_of_char_digits:
  assumes "2 \<le> b" "b \<le> 36"
  shows "map of_char (map char_of (to_base b n)) = to_base b n"
proof -
  have "is_digit b c \<Longrightarrow> c < 256" for c
    using assms by (auto simp: is_digit_def digit_char_def)
  with to_base_digits [OF assms(1), of n] have "\<forall>c \<in> set (to_base b n). c < 256" by blast
  then show ?thesis by (simp add: map_idI comp_def)
qed

lemma str_bytes_chars: "c \<in> set (str_bytes n) \<Longrightarrow> c \<noteq> SP \<and> c \<noteq> NUL \<and> (of_char c :: nat) < 128"
proof -
  assume "c \<in> set (str_bytes n)"
  then obtain d where d: "d \<in> set (to_base 10 n)" "c = char_of d" by (auto simp: str_bytes_def)
  have "is_digit 10 d" using to_base_digits [of 10 n] d(1) by simp
  then obtain k :: nat where "k < 10" "d = 48 + k" by (auto simp: is_digit_def digit_char_def)
  with d(2) show ?thesis by (auto simp: char_of_eq_iff take_bit_eq_mod)
qed

lemma framed_header:
  assumes "SP \<notin> set kind"
  shows "length_field (kind @ [SP] @ str_bytes n @ [NUL] @ data) = Inr (int n)
       \<and> payload_of (kind @ [SP] @ str_bytes n @ [NUL] @ data) = data
       \<and> kind_of (kind @ [SP] @ str_bytes n @ [NUL] @ data) = kind"
proof -
  let ?raw = "kind @ [SP] @ str_bytes n @ [NUL] @ data"
  have x: "py_find ?raw SP 0 = int (length kind)"
    using py_find_at [of SP kind ?raw "[]" "str_bytes n @ [NUL] @ data" 0] assms by simp
  have nn: "NUL \<notin> set (SP # str_bytes n)" using str_bytes_chars by auto
  have y: "py_find ?raw NUL (int (length kind)) = int (length kind + length (SP # str_bytes n))"
    using nn by (rule py_find_at) simp_all
  have sl: "py_slice ?raw (int (length kind)) (int (length kind + length (SP # str_bytes n))) = SP # str_bytes n"
    by (rule py_slice_mid [where rest = "NUL # data"]) simp_all
  have asc: "decode_ascii (SP # str_bytes n) = Inr (32 # to_base 10 n)"
    using str_bytes_chars [of _ n]
    by (auto simp: decode_ascii_def str_bytes_def map_of_char_digits [unfolded map_map])
  have lf: "length_field ?raw = Inr (int n)"
    by (simp only: length_field_def x y Let_def sl asc) (simp add: py_int_decimal)
  have "py_slice_from ?raw (int (length kind + length (SP # str_bytes n)) + 1) = data"
    by (rule py_slice_from_at [where pre = "kind @ [SP] @ str_bytes n @ [NUL]"]) simp_all
  then have pl: "payload_of ?raw = data"
    by (simp only: payload_of_def x y)
  have "py_slice ?raw 0 (int (length kind)) = kind"
    by (rule py_slice_mid [where pre = "[]" and rest = "[SP] @ str_bytes n @ [NUL] @ data"]) simp_all
  then have "kind_of ?raw = kind"
    by (simp only: kind_of_def x)
  with lf pl show ?thesis by simp
qed

lemma object_read_file:
  assumes "objects r (take 2 s) = Some listing"
    and "map_of listing (drop 2 s) = Some content"
    and "decompress L content = Some raw"
  shows "object_read L r s =
     (case length_field raw of
        Inl e \<Rightarrow> Some (Inl e)
      | Inr sz \<Rightarrow>
          if sz \<noteq> int (length (payload_of raw)) then Some (Inl (MalformedObject s))
          else if \<not> is_kind (kind_of raw) then
            (case decode_ascii (kind_of raw) of
               Inl e \<Rightarrow> Some (Inl e)
             | Inr k \<Rightarrow> Some (Inl (UnknownType k s)))
          else map_option (map_sum id Some) (deserialize (kind_of raw) (payload_of raw)))"
  using assms
  by (simp add: object_read_def length_field_def Let_def length_payload_of kind_of_def
      payload_of_def [symmetric] split: sum.splits)

text \<open>
  Claim C8. Let the file of an object exist and decompress to \<open>raw\<close>. If \<open>object_read\<close>
  returns, the length field of \<open>raw\<close> is exactly the length of its payload and the object
  returned is the decoding of that whole payload. If the length field is a number other
  than the length of the payload, \<open>object_read\<close> raises the exception "Malformed object"
  (the \<open>CorruptObject\<close> of the specification) and returns nothing; this is decided before
  the kind is looked at, so it holds for any kind, known or not. In particular it holds
  for a file framed as \<open>kind SP n NUL data\<close> with \<open>n\<close> different from the length of
  \<open>data\<close>.
\<close>

theorem object_read_checks_length:
  assumes "objects r (take 2 s) = Some listing"
    and "map_of listing (drop 2 s) = Some content"
    and "decompress L content = Some raw"
  shows "(\<forall>res. object_read L r s = Some (Inr res) \<longrightarrow>
            length_field raw = Inr (int (length (payload_of raw)))
            \<and> (\<exists>obj. res = Some obj \<and> deserialize (kind_of raw) (payload_of raw) = Some (Inr obj)))
       \<and> (\<forall>n. length_field raw = Inr n \<and> n \<noteq> int (length (payload_of raw)) \<longrightarrow>
            object_read L r s = Some (Inl (MalformedObject s)))
       \<and> (\<forall>kind n data. raw = kind @ [SP] @ str_bytes n @ [NUL] @ data \<and> SP \<notin> set kind
              \<and> n \<noteq> length data \<longrightarrow>
            object_read L r s = Some (Inl (MalformedObject s)))"
proof -
  note rd = object_read_file [OF assms]
  have b: "object_read L r s = Some (Inl (MalformedObject s))"
    if "length_field raw = Inr n" "n \<noteq> int (length (payload_of raw))" for n
    using that by (simp add: rd)
  have a: "length_field raw = Inr (int (length (payload_of raw)))
            \<and> (\<exists>obj. res = Some obj \<and> deserialize (kind_of raw) (payload_of raw) = Some (Inr obj))"
    if "object_read L r s = Some (Inr res)" for res
  proof (cases "length_field raw")
    case (Inl e)
    with that show ?thesis by (simp add: rd)
  next
    case (Inr sz)
    with that have sz: "sz = int (length (payload_of raw))" and k: "is_kind (kind_of raw)"
      by (auto simp: rd split: if_splits sum.splits)
    with that Inr have "map_option (map_sum id Some) (deserialize (kind_of raw) (payload_of raw)) = Some (Inr res)"
      by (simp add: rd)
    then obtain obj where "deserialize (kind_of raw) (payload_of raw) = Some (Inr obj)" "res = Some obj"
      by (cases "deserialize (kind_of raw) (payload_of raw)"; cases "the (deserialize (kind_of raw) (payload_of raw))") auto
    with Inr sz show ?thesis by simp
  qed
  have c: "object_read L r s = Some (Inl (MalformedObject s))"
    if "raw = kind @ [SP] @ str_bytes n @ [NUL] @ data" "SP \<notin> set kind" "n \<noteq> length data"
    for kind n data
    using b [of "int n"] framed_header [OF that(2), of n data] that by simp
  from a b c show ?thesis by blast
qed

theorem object_read_checks_length_witness:
  "objects demo_repository (take 2 bad_name) =
     Some [(drop 2 blob_name, CHR ''z'' # ''blob 3'' @ [NUL] @ ''abc''),
           (drop 2 bad_name, CHR ''z'' # ''blob 5'' @ [NUL] @ ''abc'')]
   \<and> map_of [(drop 2 blob_name, CHR ''z'' # ''blob 3'' @ [NUL] @ ''abc''),
              (drop 2 bad_name, CHR ''z'' # ''blob 5'' @ [NUL] @ ''abc'')] (drop 2 bad_name)
       = Some (CHR ''z'' # ''blob 5'' @ [NUL] @ ''abc'')
   \<and> decompress demo_library (CHR ''z'' # ''blob 5'' @ [NUL] @ ''abc'') = Some (''blob 5'' @ [NUL] @ ''abc'')
   \<and> ''blob 5'' @ [NUL] @ ''abc'' = ''blob'' @ [SP] @ str_bytes 5 @ [NUL] @ ''abc''
   \<and> SP \<notin> set ''blob'' \<and> 5 \<noteq> length ''abc''
   \<and> object_read demo_library demo_repository bad_name = Some (Inl (MalformedObject bad_name))
   \<and> object_read demo_library demo_repository blob_name = Some (Inr (Some (GitBlob ''abc'')))
   \<and> length_field (''blob 3'' @ [NUL] @ ''abc'') = Inr (int (length (payload_of (''blob 3'' @ [NUL] @ ''abc''))))"
proof -
  let ?l = "[(drop 2 blob_name, CHR ''z'' # ''blob 3'' @ [NUL] @ ''abc''),
             (drop 2 bad_name, CHR ''z'' # ''blob 5'' @ [NUL] @ ''abc'')]"
  have d: "objects demo_repository (take 2 bad_name) = Some ?l"
    "objects demo_repository (take 2 blob_name) = Some ?l"
    by (simp_all add: demo_repository_def bad_name_def blob_name_def ascii_def)
  have f: "map_of ?l (drop 2 bad_name) = Some (CHR ''z'' # ''blob 5'' @ [NUL] @ ''abc'')"
    "map_of ?l (drop 2 blob_name) = Some (CHR ''z'' # ''blob 3'' @ [NUL] @ ''abc'')"
    by (simp_all add: bad_name_def blob_name_def ascii_def)
  have z: "decompress demo_library (CHR ''z'' # ''blob 5'' @ [NUL] @ ''abc'') = Some (''blob 5'' @ [NUL] @ ''abc'')"
    "decompress demo_library (CHR ''z'' # ''blob 3'' @ [NUL] @ ''abc'') = Some (''blob 3'' @ [NUL] @ ''abc'')"
    by (simp_all add: demo_library_def)
  have fr: "''blob 5'' @ [NUL] @ ''abc'' = ''blob'' @ [SP] @ str_bytes 5 @ [NUL] @ ''abc''"
    "''blob 3'' @ [NUL] @ ''abc'' = ''blob'' @ [SP] @ str_bytes 3 @ [NUL] @ ''abc''"
    by (simp_all add: str_bytes_def to_base_small digit_char_def eq_char_of)
  have bad: "object_read demo_library demo_repository bad_name = Some (Inl (MalformedObject bad_name))"
    using object_read_checks_length [OF d(1) f(1) z(1)] fr(1) by fastforce
  have hd: "length_field (''blob 3'' @ [NUL] @ ''abc'') = Inr 3
      \<and> payload_of (''blob 3'' @ [NUL] @ ''abc'') = ''abc''
      \<and> kind_of (''blob 3'' @ [NUL] @ ''abc'') = ''blob''"
    using framed_header [of "''blob''" 3 "''abc''"] fr(2) by simp
  have good: "object_read demo_library demo_repository blob_name = Some (Inr (Some (GitBlob ''abc'')))"
    unfolding object_read_file [OF d(2) f(2) z(2)] using hd
    by (simp add: is_kind_def deserialize_def)
  from object_read_checks_length [OF d(2) f(2) z(2)] good
  have lf: "length_field (''blob 3'' @ [NUL] @ ''abc'') = Inr (int (length (payload_of (''blob 3'' @ [NUL] @ ''abc''))))"
    by blast
  show ?thesis
    apply (intro conjI)
    apply (rule d(1), rule f(1), rule z(1), rule fr(1), simp, simp, rule bad, rule good, rule lf)
    done
qed

section \<open>Building trees\<close>

lemma has_object_store: "has_object (store_object r s c) s"
  by (auto simp: has_object_def store_object_def Let_def split: option.splits)

lemma has_object_mono: "has_object r s \<Longrightarrow> has_object (store_object r s' c) s"
  by (auto simp: has_object_def store_object_def Let_def split: option.splits)

lemma leaf_bytes_digest:
  assumes "is_digest (sha l)" "utf8_encode (path l) = Inr p"
  shows "leaf_bytes l = Inr (mode l @ [SP] @ p @ [NUL] @ be_bytes 20 (digits_nat 16 (sha l)))"
proof -
  from is_digest_roundtrip [OF assms(1)]
  have "py_int 16 (sha l) = Inr (int (digits_nat 16 (sha l)))" "digits_nat 16 (sha l) < 256 ^ 20"
    by simp_all
  with assms(2) show ?thesis by (simp add: leaf_bytes_def to_bytes_def)
qed

lemma object_write_ok:
  "serialize obj = Inr data \<Longrightarrow>
   object_write L obj (Some r) =
     Inr (hexdigest L (frame (fmt obj) data),
          Some (store_object r (hexdigest L (frame (fmt obj) data)) (compress L (frame (fmt obj) data))))"
  by (simp add: object_write_def Let_def)

lemma utf8_encode_ascii: "utf8_encode (ascii s) = Inr (map (char_of \<circ> (of_char :: char \<Rightarrow> nat)) s)" if "\<forall>c \<in> set s. (of_char c :: nat) < 128"
  using that by (induction s) (auto simp: ascii_def utf8_char_def)

lemma dirname_c: "dirname (ascii ''dir/sub/c.txt'') = ascii ''dir/sub''"
  by (simp add: dirname_def after_last_sep_def ascii_def)
lemma dirname_b: "dirname (ascii ''dir/b.txt'') = ascii ''dir''"
  by (simp add: dirname_def after_last_sep_def ascii_def)
lemma dirname_a: "dirname (ascii ''a.txt'') = []"
  by (simp add: dirname_def after_last_sep_def ascii_def)
lemma dirname_sub: "dirname (ascii ''dir/sub'') = ascii ''dir''"
  by (simp add: dirname_def after_last_sep_def ascii_def)
lemma dirname_dir: "dirname (ascii ''dir'') = []"
  by (simp add: dirname_def after_last_sep_def ascii_def)
lemma dirname_root: "dirname [] = []"
  by (simp add: dirname_def after_last_sep_def)
lemma basename_sub: "basename (ascii ''dir/sub'') = ascii ''sub''"
  by (simp add: basename_def after_last_sep_def ascii_def)
lemma basename_dir: "basename (ascii ''dir'') = ascii ''dir''"
  by (simp add: basename_def after_last_sep_def ascii_def)
lemma basename_root: "basename [] = []"
  by (simp add: basename_def after_last_sep_def)

lemma group_three:
  assumes "name ea = ascii ''a.txt''" "name eb = ascii ''dir/b.txt''" "name ec = ascii ''dir/sub/c.txt''"
  shows "group_entries [ea, eb, ec] [([], [])] =
     Some (Inr [([], [Entry ea]), (ascii ''dir'', [Entry eb]), (ascii ''dir/sub'', [Entry ec])])"
  by (simp add: assms add_ancestors.simps append_item_def dirname_def after_last_sep_def ascii_def)

lemma sorted_three:
  "sorted_paths [([], a), (ascii ''dir'', b), (ascii ''dir/sub'', c)] = [ascii ''dir/sub'', ascii ''dir'', []]"
  by (simp add: sorted_paths_def ascii_def)


lemma sort_key_two: "f x \<le> f y \<Longrightarrow> sort_key f [x, y] = [x, y]"
  by simp

lemma entry_leaf_key:
  "tree_leaf_sort_key (leaf_of (Entry e)) = basename (name e)
   \<or> tree_leaf_sort_key (leaf_of (Entry e)) = basename (name e) @ ascii ''/''"
  by (simp add: tree_leaf_sort_key_def)

lemma tree_serialize_one:
  "leaf_bytes x = Inr bx \<Longrightarrow> tree_serialize [x] = Inr bx"
  by (simp add: tree_serialize_def)

lemma tree_serialize_two:
  "leaf_bytes x = Inr bx \<Longrightarrow> leaf_bytes y = Inr by \<Longrightarrow>
   tree_leaf_sort_key x \<le> tree_leaf_sort_key y \<Longrightarrow> tree_serialize [x, y] = Inr (bx @ by)"
  by (simp add: tree_serialize_def)

lemma write_trees_step:
  "map_of c p = Some l \<Longrightarrow>
   object_write L (GitTree (map leaf_of l)) (Some r) = Inr (s', Some r') \<Longrightarrow>
   append_item (dirname p) (Subtree (basename p) s') c = Inr c' \<Longrightarrow>
   write_trees L (p # ps) c s r w = write_trees L ps c' (Some s') r' (w @ [s'])"
  by simp

text \<open>
  Claim C1. For an index whose entries are \<open>a.txt\<close>, \<open>dir/b.txt\<close> and
  \<open>dir/sub/c.txt\<close> (with digests of 40 hexadecimal digits), the directories are
  processed in the order \<open>dir/sub\<close>, \<open>dir\<close>, root, longest path first;
  \<open>tree_from_index\<close> makes exactly three calls of \<open>object_write\<close>, one tree for each
  in that order, and returns the digest of the last. The tree of \<open>dir\<close> holds the digest
  \<open>s1\<close> of the tree of \<open>dir/sub\<close> and is written to a repository \<open>r1\<close> in which the
  object \<open>s1\<close> exists; the root tree holds the digest \<open>s2\<close> of the tree of \<open>dir\<close>
  and is written to a repository \<open>r2\<close> in which \<open>s2\<close> exists. The root tree has
  exactly two entries, the entry of the file \<open>a.txt\<close> and a tree entry (mode \<open>040000\<close>)
  named \<open>dir\<close>, in this order, \<open>dir\<close> being compared as \<open>dir/\<close>.
\<close>

theorem tree_from_index_three_paths:
  assumes names: "name ea = ascii ''a.txt''" "name eb = ascii ''dir/b.txt''"
      "name ec = ascii ''dir/sub/c.txt''"
    and digests: "is_digest (entry_sha ea)" "is_digest (entry_sha eb)" "is_digest (entry_sha ec)"
  shows "\<exists>s1 s2 s3 r1 r2 r3.
      sorted_paths [([], [Entry ea]), (ascii ''dir'', [Entry eb]), (ascii ''dir/sub'', [Entry ec])]
        = [ascii ''dir/sub'', ascii ''dir'', []]
    \<and> object_write L (GitTree [leaf_of (Entry ec)]) (Some r) = Inr (s1, Some r1)
    \<and> object_write L (GitTree [leaf_of (Entry eb), leaf_of (Subtree (ascii ''sub'') s1)]) (Some r1)
        = Inr (s2, Some r2)
    \<and> object_write L (GitTree [leaf_of (Entry ea), leaf_of (Subtree (ascii ''dir'') s2)]) (Some r2)
        = Inr (s3, Some r3)
    \<and> build_trees L r \<lparr>version = v, entries = [ea, eb, ec]\<rparr> = Some (Inr (Some s3, r3, [s1, s2, s3]))
    \<and> tree_from_index L r \<lparr>version = v, entries = [ea, eb, ec]\<rparr> = Some (Inr (Some s3, r3))
    \<and> has_object r1 s1 \<and> has_object r2 s2
    \<and> sort_key tree_leaf_sort_key [leaf_of (Entry ea), leaf_of (Subtree (ascii ''dir'') s2)]
        = [leaf_of (Entry ea), leaf_of (Subtree (ascii ''dir'') s2)]
    \<and> path (leaf_of (Entry ea)) = ascii ''a.txt''
    \<and> leaf_of (Subtree (ascii ''dir'') s2) = \<lparr>mode = ''040000'', path = ascii ''dir'', sha = s2\<rparr>
    \<and> tree_leaf_sort_key (leaf_of (Subtree (ascii ''dir'') s2)) = ascii ''dir/''"
proof -
  let ?la = "leaf_of (Entry ea)" and ?lb = "leaf_of (Entry eb)" and ?lc = "leaf_of (Entry ec)"
  have pa: "path ?la = ascii ''a.txt''" and pb: "path ?lb = ascii ''b.txt''"
    and pc: "path ?lc = ascii ''c.txt''"
    by (simp_all add: names basename_def after_last_sep_def ascii_def)
  have enc: "utf8_encode (ascii ''a.txt'') = Inr ''a.txt''" "utf8_encode (ascii ''b.txt'') = Inr ''b.txt''"
    "utf8_encode (ascii ''c.txt'') = Inr ''c.txt''" "utf8_encode (ascii ''sub'') = Inr ''sub''"
    "utf8_encode (ascii ''dir'') = Inr ''dir''"
    by (simp_all add: utf8_encode_ascii)
  obtain ba bb bc where la: "leaf_bytes ?la = Inr ba" and lb: "leaf_bytes ?lb = Inr bb"
    and lc: "leaf_bytes ?lc = Inr bc"
    using leaf_bytes_digest [of ?la] leaf_bytes_digest [of ?lb] leaf_bytes_digest [of ?lc]
      digests pa pb pc enc by simp
  have sub: "\<exists>b. leaf_bytes (leaf_of (Subtree (ascii ''sub'') (hexdigest L x))) = Inr b" for x
    using leaf_bytes_digest [of "leaf_of (Subtree (ascii ''sub'') (hexdigest L x))"] enc
    by (simp add: is_digest_hexdigest)
  have dir: "\<exists>b. leaf_bytes (leaf_of (Subtree (ascii ''dir'') (hexdigest L x))) = Inr b" for x
    using leaf_bytes_digest [of "leaf_of (Subtree (ascii ''dir'') (hexdigest L x))"] enc
    by (simp add: is_digest_hexdigest)
  have kb: "tree_leaf_sort_key ?lb \<le> tree_leaf_sort_key (leaf_of (Subtree (ascii ''sub'') s))" for s
    using pb by (simp add: tree_leaf_sort_key_def ascii_def startswith_def)
  have ka: "tree_leaf_sort_key ?la \<le> tree_leaf_sort_key (leaf_of (Subtree (ascii ''dir'') s))" for s
    using pa by (simp add: tree_leaf_sort_key_def ascii_def startswith_def)
  define s1 where "s1 = hexdigest L (frame ''tree'' bc)"
  define r1 where "r1 = store_object r s1 (compress L (frame ''tree'' bc))"
  from sub [of "frame ''tree'' bc"] obtain bsub
    where bsub: "leaf_bytes (leaf_of (Subtree (ascii ''sub'') s1)) = Inr bsub"
    by (auto simp: s1_def)
  define s2 where "s2 = hexdigest L (frame ''tree'' (bb @ bsub))"
  define r2 where "r2 = store_object r1 s2 (compress L (frame ''tree'' (bb @ bsub)))"
  from dir [of "frame ''tree'' (bb @ bsub)"] obtain bdir
    where bdir: "leaf_bytes (leaf_of (Subtree (ascii ''dir'') s2)) = Inr bdir"
    by (auto simp: s2_def)
  define s3 where "s3 = hexdigest L (frame ''tree'' (ba @ bdir))"
  define r3 where "r3 = store_object r2 s3 (compress L (frame ''tree'' (ba @ bdir)))"
  have w1: "object_write L (GitTree [?lc]) (Some r) = Inr (s1, Some r1)"
    using object_write_ok [of "GitTree [?lc]" bc L r] tree_serialize_one [OF lc]
    by (simp add: s1_def r1_def)
  have w2: "object_write L (GitTree [?lb, leaf_of (Subtree (ascii ''sub'') s1)]) (Some r1)
        = Inr (s2, Some r2)"
    using object_write_ok [of "GitTree [?lb, leaf_of (Subtree (ascii ''sub'') s1)]" "bb @ bsub" L r1]
      tree_serialize_two [OF lb bsub kb]
    by (simp add: s2_def r2_def)
  have w3: "object_write L (GitTree [?la, leaf_of (Subtree (ascii ''dir'') s2)]) (Some r2)
        = Inr (s3, Some r3)"
    using object_write_ok [of "GitTree [?la, leaf_of (Subtree (ascii ''dir'') s2)]" "ba @ bdir" L r2]
      tree_serialize_two [OF la bdir ka]
    by (simp add: s3_def r3_def)
  let ?c0 = "[([], [Entry ea]), (ascii ''dir'', [Entry eb]), (ascii ''dir/sub'', [Entry ec])]"
  let ?c1 = "[([], [Entry ea]), (ascii ''dir'', [Entry eb, Subtree (ascii ''sub'') s1]),
              (ascii ''dir/sub'', [Entry ec])]"
  let ?c2 = "[([], [Entry ea, Subtree (ascii ''dir'') s2]),
              (ascii ''dir'', [Entry eb, Subtree (ascii ''sub'') s1]),
              (ascii ''dir/sub'', [Entry ec])]"
  let ?c3 = "[([], [Entry ea, Subtree (ascii ''dir'') s2, Subtree [] s3]),
              (ascii ''dir'', [Entry eb, Subtree (ascii ''sub'') s1]),
              (ascii ''dir/sub'', [Entry ec])]"
  have t1: "write_trees L [ascii ''dir/sub'', ascii ''dir'', []] ?c0 None r []
      = write_trees L [ascii ''dir'', []] ?c1 (Some s1) r1 [s1]"
  proof -
    have "map_of ?c0 (ascii ''dir/sub'') = Some [Entry ec]" by (simp add: ascii_def)
    moreover have "object_write L (GitTree (map leaf_of [Entry ec])) (Some r) = Inr (s1, Some r1)"
      using w1 by simp
    moreover have "append_item (dirname (ascii ''dir/sub'')) (Subtree (basename (ascii ''dir/sub'')) s1) ?c0
        = Inr ?c1"
      unfolding dirname_sub basename_sub by (simp add: append_item_def ascii_def)
    ultimately show ?thesis using write_trees_step [where w = "[]"] by fastforce
  qed
  have t2: "write_trees L [ascii ''dir'', []] ?c1 (Some s1) r1 [s1]
      = write_trees L [[]] ?c2 (Some s2) r2 [s1, s2]"
  proof -
    have "map_of ?c1 (ascii ''dir'') = Some [Entry eb, Subtree (ascii ''sub'') s1]"
      by (simp add: ascii_def)
    moreover have "object_write L (GitTree (map leaf_of [Entry eb, Subtree (ascii ''sub'') s1])) (Some r1)
        = Inr (s2, Some r2)"
      using w2 by simp
    moreover have "append_item (dirname (ascii ''dir'')) (Subtree (basename (ascii ''dir'')) s2) ?c1
        = Inr ?c2"
      unfolding dirname_dir basename_dir by (simp add: append_item_def ascii_def)
    ultimately show ?thesis using write_trees_step [where w = "[s1]"] by fastforce
  qed
  have t3: "write_trees L [[]] ?c2 (Some s2) r2 [s1, s2]
      = write_trees L [] ?c3 (Some s3) r3 [s1, s2, s3]"
  proof -
    have "map_of ?c2 [] = Some [Entry ea, Subtree (ascii ''dir'') s2]"
      by simp
    moreover have "object_write L (GitTree (map leaf_of [Entry ea, Subtree (ascii ''dir'') s2])) (Some r2)
        = Inr (s3, Some r3)"
      using w3 by simp
    moreover have "append_item (dirname []) (Subtree (basename []) s3) ?c2 = Inr ?c3"
      unfolding dirname_root basename_root by (simp add: append_item_def ascii_def)
    ultimately show ?thesis using write_trees_step [where w = "[s1, s2]"] by fastforce
  qed
  have sp: "sorted_paths ?c0 = [ascii ''dir/sub'', ascii ''dir'', []]"
    by (rule sorted_three)
  have gr: "group_entries (entries \<lparr>version = v, entries = [ea, eb, ec]\<rparr>) [([], [])] = Some (Inr ?c0)"
    using group_three [OF names] by simp
  have bt: "build_trees L r \<lparr>version = v, entries = [ea, eb, ec]\<rparr>
      = Some (Inr (Some s3, r3, [s1, s2, s3]))"
    unfolding build_trees_def gr by (simp add: sp t1 t2 t3 del: write_trees.simps) simp
  have tf: "tree_from_index L r \<lparr>version = v, entries = [ea, eb, ec]\<rparr> = Some (Inr (Some s3, r3))"
    unfolding tree_from_index_def bt by simp
  have h1: "has_object r1 s1" by (simp add: r1_def has_object_store)
  have h2: "has_object r2 s2" by (simp add: r2_def has_object_store)
  have sk: "sort_key tree_leaf_sort_key [?la, leaf_of (Subtree (ascii ''dir'') s2)]
        = [?la, leaf_of (Subtree (ascii ''dir'') s2)]"
    using ka by simp
  have kd: "tree_leaf_sort_key (leaf_of (Subtree (ascii ''dir'') s2)) = ascii ''dir/''"
    by (simp add: tree_leaf_sort_key_def startswith_def ascii_def)
  show ?thesis
    apply (rule exI [of _ s1], rule exI [of _ s2], rule exI [of _ s3])
    apply (rule exI [of _ r1], rule exI [of _ r2], rule exI [of _ r3])
    apply (intro conjI)
    apply (rule sp, rule w1, rule w2, rule w3, rule bt, rule tf, rule h1, rule h2, rule sk)
    apply (rule pa, simp, rule kd)
    done
qed


theorem tree_from_index_three_paths_witness:
  "name (demo_entry ''a.txt'' 1) = ascii ''a.txt''
   \<and> name (demo_entry ''dir/b.txt'' 2) = ascii ''dir/b.txt''
   \<and> name (demo_entry ''dir/sub/c.txt'' 3) = ascii ''dir/sub/c.txt''
   \<and> is_digest (entry_sha (demo_entry ''a.txt'' 1))
   \<and> is_digest (entry_sha (demo_entry ''dir/b.txt'' 2))
   \<and> is_digest (entry_sha (demo_entry ''dir/sub/c.txt'' 3))
   \<and> (\<exists>s1 s2 s3 r3.
        build_trees demo_library empty_repository
          \<lparr>version = 2, entries = [demo_entry ''a.txt'' 1, demo_entry ''dir/b.txt'' 2,
                                   demo_entry ''dir/sub/c.txt'' 3]\<rparr>
          = Some (Inr (Some s3, r3, [s1, s2, s3])))"
proof -
  have n: "name (demo_entry ''a.txt'' 1) = ascii ''a.txt''"
    "name (demo_entry ''dir/b.txt'' 2) = ascii ''dir/b.txt''"
    "name (demo_entry ''dir/sub/c.txt'' 3) = ascii ''dir/sub/c.txt''"
    by (simp_all add: demo_entry_def)
  have d: "is_digest (entry_sha (demo_entry ''a.txt'' 1))"
    "is_digest (entry_sha (demo_entry ''dir/b.txt'' 2))"
    "is_digest (entry_sha (demo_entry ''dir/sub/c.txt'' 3))"
    by (simp_all add: demo_entry_def is_digest_format)
  from tree_from_index_three_paths [OF n d, of demo_library empty_repository 2]
  have "\<exists>s1 s2 s3 r3.
        build_trees demo_library empty_repository
          \<lparr>version = 2, entries = [demo_entry ''a.txt'' 1, demo_entry ''dir/b.txt'' 2,
                                   demo_entry ''dir/sub/c.txt'' 3]\<rparr>
          = Some (Inr (Some s3, r3, [s1, s2, s3]))"
    by blast
  with n d show ?thesis by simp
qed

lemma str_bytes_0: "str_bytes 0 = ''0''"
  by (simp add: str_bytes_def to_base_small digit_char_def char_of_eq_iff)

lemma serialize_empty_tree: "serialize (GitTree []) = Inr []"
  by (simp add: tree_serialize_def)

lemma frame_empty_tree: "frame ''tree'' [] = ''tree 0'' @ [NUL]"
  by (simp add: frame_def str_bytes_0)

lemma sorted_paths_root: "sorted_paths [([], [])] = [[]]"
  by (simp add: sorted_paths_def)

text \<open>
  Claim C10. For an index without entries, \<open>tree_from_index\<close> makes exactly one call of
  \<open>object_write\<close>, for the tree without items, whose serialisation is the empty byte
  string and whose framed content is \<open>tree 0\<close> followed by NUL; it returns the digest of
  that content (never \<open>None\<close>), and the repository afterwards is the one before with
  that object stored.
\<close>

theorem empty_index_writes_root_tree:
  "build_trees L r \<lparr>version = v, entries = []\<rparr> =
     Some (Inr (Some (hexdigest L (frame ''tree'' [])),
                store_object r (hexdigest L (frame ''tree'' [])) (compress L (frame ''tree'' [])),
                [hexdigest L (frame ''tree'' [])]))
   \<and> tree_from_index L r \<lparr>version = v, entries = []\<rparr> =
     Some (Inr (Some (hexdigest L (frame ''tree'' [])),
                store_object r (hexdigest L (frame ''tree'' [])) (compress L (frame ''tree'' []))))
   \<and> object_write L (GitTree []) (Some r) =
       Inr (hexdigest L (frame ''tree'' []),
            Some (store_object r (hexdigest L (frame ''tree'' [])) (compress L (frame ''tree'' []))))
   \<and> serialize (GitTree []) = Inr []
   \<and> frame ''tree'' [] = ''tree 0'' @ [NUL]"
  by (simp add: build_trees_def tree_from_index_def sorted_paths_root object_write_def
      tree_serialize_def frame_empty_tree append_item_def dirname_root basename_root Let_def)

theorem empty_index_writes_root_tree_witness:
  "tree_from_index demo_library empty_repository \<lparr>version = 2, entries = []\<rparr> =
     Some (Inr (Some (hexdigest demo_library (''tree 0'' @ [NUL])),
                store_object empty_repository (hexdigest demo_library (''tree 0'' @ [NUL]))
                  (CHR ''z'' # ''tree 0'' @ [NUL])))"
  using empty_index_writes_root_tree [of demo_library empty_repository 2]
  by (simp add: demo_library_def)

end
